theory Spec2Isabelle
  imports Main "HOL-Library.Sublist"
begin

section \<open>Helpers of the form library: values\<close>

text \<open>
  The helpers of \<^verbatim>\<open>packages/lib/src/helpers.ts\<close> work on JSON-compatible values as
  the runtime sees them. A value is \<^verbatim>\<open>undefined\<close>, \<^verbatim>\<open>null\<close>, a boolean, a number, a
  string, an array or a plain object. A plain object is the list of its own properties
  in enumeration order, which is what \<^verbatim>\<open>for (const k in value)\<close> walks through.
  Numbers are only carried around by the helpers, never computed with, so integers stand
  for them.

  Property names are ordinary names. A name that the runtime resolves through a prototype
  (\<^verbatim>\<open>__proto__\<close>, \<^verbatim>\<open>constructor\<close>, the methods, the indices and the \<^verbatim>\<open>length\<close> of an
  array or of a string) is outside this development, and so is the place that the
  runtime gives a name that is an array index among the properties of a plain object
  (before the other names, in numeric order).
\<close>

datatype jsvalue =
    JUndefined
  | JNull
  | JBool bool
  | JNum int
  | JStr string
  | JArray "jsvalue list"
  | JObject "(string \<times> jsvalue) list"

type_synonym JSONObject = "(string \<times> jsvalue) list"

text \<open>
  The assignment \<^verbatim>\<open>obj[k] = v\<close>: an existing property keeps its place and takes the new
  value, a new property goes to the end.
\<close>

fun assign :: "(string \<times> 'a) list \<Rightarrow> string \<Rightarrow> 'a \<Rightarrow> (string \<times> 'a) list" where
  "assign [] k v = [(k, v)]"
| "assign ((k', v') # ps) k v = (if k' = k then (k, v) # ps else (k', v') # assign ps k v)"

text \<open>The read \<^verbatim>\<open>obj[k]\<close> of an own property; \<^verbatim>\<open>undefined\<close> when there is none.\<close>

definition getProperty :: "JSONObject \<Rightarrow> string \<Rightarrow> jsvalue" where
  "getProperty obj k = (case map_of obj k of Some v \<Rightarrow> v | None \<Rightarrow> JUndefined)"

text \<open>What \<^verbatim>\<open>if (v)\<close>, \<^verbatim>\<open>v && e\<close> and \<^verbatim>\<open>v || e\<close> test.\<close>

fun truthy :: "jsvalue \<Rightarrow> bool" where
  "truthy JUndefined = False"
| "truthy JNull = False"
| "truthy (JBool b) = b"
| "truthy (JNum n) = (n \<noteq> 0)"
| "truthy (JStr s) = (s \<noteq> [])"
| "truthy (JArray xs) = True"
| "truthy (JObject ps) = True"

section \<open>createProps\<close>

text \<open>
  \<^verbatim>\<open>createProps(value: T | null = null)\<close> returns \<^verbatim>\<open>{ value, errors: null }\<close>. A value
  of type \<^verbatim>\<open>T | null\<close> is an option, and so is the argument that the caller may leave
  out.
\<close>

record ('t, 'e) FieldProps =
  propsValue :: "'t option"
  propsErrors :: "'e option"

definition createProps :: "'t option option \<Rightarrow> ('t, 'e) FieldProps" where
  "createProps arg =
     (let val = (case arg of None \<Rightarrow> None | Some given \<Rightarrow> given)
      in \<lparr>propsValue = val, propsErrors = None\<rparr>)"

section \<open>normalizeObject and normalizeValue\<close>

text \<open>
  \<^verbatim>\<open>normalizeProps\<close> is the loop of \<^verbatim>\<open>normalizeObject\<close>: the properties still to visit
  and the object \<^verbatim>\<open>obj\<close> built so far. \<^verbatim>\<open>typeDetect(v) === 'Object'\<close> holds of the plain
  objects and of nothing else.
\<close>

fun normalizeProps :: "JSONObject \<Rightarrow> JSONObject \<Rightarrow> JSONObject"
  and normalizeObject :: "JSONObject \<Rightarrow> bool \<Rightarrow> jsvalue" where
  "normalizeProps [] obj = obj"
| "normalizeProps ((k, v) # rest) obj =
     (let v' = (case v of JObject props \<Rightarrow> normalizeObject props False | _ \<Rightarrow> v)
      in normalizeProps rest (if v' \<noteq> JNull then assign obj k v' else obj))"
| "normalizeObject val isRoot =
     (let obj = normalizeProps val []
      in if obj \<noteq> [] then JObject obj else if isRoot then JObject [] else JNull)"

definition normalizeValue :: "jsvalue \<Rightarrow> jsvalue" where
  "normalizeValue v = (case v of JObject props \<Rightarrow> normalizeObject props True | _ \<Rightarrow> v)"

text \<open>
  The value the loop stores for a property \<^verbatim>\<open>v\<close>, and the values the loop keeps as they
  are: not \<^verbatim>\<open>null\<close>, and their own normal form.
\<close>

definition normalizeNested :: "jsvalue \<Rightarrow> jsvalue" where
  "normalizeNested v = (case v of JObject props \<Rightarrow> normalizeObject props False | _ \<Rightarrow> v)"

definition settled :: "jsvalue \<Rightarrow> bool" where
  "settled w \<longleftrightarrow> w \<noteq> JNull \<and> normalizeNested w = w"

section \<open>objectDefaultValue and defaultValue\<close>

text \<open>
  Modelled from the spec: the declarations of \<^verbatim>\<open>./types\<close> (\<^verbatim>\<open>JSONSchema\<close>,
  \<^verbatim>\<open>JSONSchemaTypeName\<close>) are not among the sources. A schema node is a boolean or an
  object of which the helpers read three fields: \<^verbatim>\<open>type\<close> (absent, one type name or a
  list of type names), \<^verbatim>\<open>default\<close> (a value, \<^verbatim>\<open>undefined\<close> when absent) and
  \<^verbatim>\<open>properties\<close> (absent or the declared properties in enumeration order).
\<close>

datatype JSONSchemaTypeName = TString | TNumber | TInteger | TBoolean | TObject | TArray | TNull

datatype SchemaType = NoType | OneType JSONSchemaTypeName | ManyTypes "JSONSchemaTypeName list"

datatype JSONSchema =
    BooleanSchema bool
  | Schema SchemaType jsvalue "(string \<times> JSONSchema) list option"

text \<open>
  The read \<^verbatim>\<open>value[k]\<close> after the cast \<^verbatim>\<open><JSONObject>value\<close>, for a truthy value: the
  own property of a plain object, \<^verbatim>\<open>undefined\<close> where it is missing and on every value
  that is not a plain object.
\<close>

fun getMember :: "jsvalue \<Rightarrow> string \<Rightarrow> jsvalue" where
  "getMember (JObject ps) k = getProperty ps k"
| "getMember _ k = JUndefined"

text \<open>
  \<^verbatim>\<open>defaultProps\<close> is the loop of \<^verbatim>\<open>objectDefaultValue\<close> over the declared properties,
  with the object \<^verbatim>\<open>v\<close> built so far; \<^verbatim>\<open>item\<close> is \<^verbatim>\<open>value && value[k]\<close>. In
  \<^verbatim>\<open>defaultValue\<close> the test is \<^verbatim>\<open>value === null && schema.default !== undefined\<close>, and
  the array case returns \<^verbatim>\<open>value || []\<close>.
\<close>

fun defaultProps :: "(string \<times> JSONSchema) list \<Rightarrow> jsvalue \<Rightarrow> JSONObject \<Rightarrow> JSONObject"
  and objectDefaultValue :: "JSONSchema \<Rightarrow> jsvalue \<Rightarrow> JSONObject"
  and defaultValue :: "JSONSchema \<Rightarrow> jsvalue \<Rightarrow> jsvalue" where
  "defaultProps [] val v = v"
| "defaultProps ((k, propSchema) # rest) val v =
     (case propSchema of
        BooleanSchema b \<Rightarrow> defaultProps rest val v
      | Schema t d ps \<Rightarrow>
          (let item = (if truthy val then getMember val k else val)
           in defaultProps rest val (assign v k (defaultValue propSchema item))))"
| "objectDefaultValue (BooleanSchema b) val = []"
| "objectDefaultValue (Schema t d None) val = []"
| "objectDefaultValue (Schema t d (Some properties)) val = defaultProps properties val []"
| "defaultValue (BooleanSchema b) val = val"
| "defaultValue (Schema t d ps) val =
     (let val' = (if val = JNull \<and> d \<noteq> JUndefined then d else val)
      in case t of
           OneType TObject \<Rightarrow> JObject (objectDefaultValue (Schema t d ps) val')
         | OneType TArray \<Rightarrow> (if truthy val' then val' else JArray [])
         | _ \<Rightarrow> val')"

section \<open>errorsToMap\<close>

text \<open>
  Of an error record of the validator the helper reads the keyword, the data path and,
  for the keyword \<^verbatim>\<open>required\<close>, the parameter \<^verbatim>\<open>missingProperty\<close>. The parameters are
  kept by name, each with the text a template literal prints for it; a parameter that is
  missing prints as \<^verbatim>\<open>undefined\<close>.
\<close>

record ErrorObject =
  keyword :: string
  dataPath :: string
  params :: "(string \<times> string) list"

definition interpolate :: "(string \<times> string) list \<Rightarrow> string \<Rightarrow> string" where
  "interpolate ps name = (case map_of ps name of Some s \<Rightarrow> s | None \<Rightarrow> ''undefined'')"

text \<open>\<^verbatim>\<open>s.split(sep)\<close> for a separator of one character.\<close>

fun splitOn :: "char \<Rightarrow> string \<Rightarrow> string list" where
  "splitOn sep [] = [[]]"
| "splitOn sep (c # cs) =
     (case splitOn sep cs of
        [] \<Rightarrow> []
      | w # ws \<Rightarrow> if c = sep then [] # w # ws else (c # w) # ws)"

definition pathSuffix :: "ErrorObject \<Rightarrow> string" where
  "pathSuffix error =
     (if keyword error = ''required''
      then ''.'' @ interpolate (params error) ''missingProperty''
      else [])"

definition errorPath :: "ErrorObject \<Rightarrow> string list" where
  "errorPath error = drop 1 (splitOn (CHR ''.'') (dataPath error @ pathSuffix error))"

text \<open>
  A node of the tree under construction is a plain object (\<^verbatim>\<open>ErrorRecord\<close>) or an array
  of error records (\<^verbatim>\<open>ErrorArray\<close>). The reducer reads and writes named properties on
  whichever node it has reached, so an array carries, besides its elements, the named
  properties written on it. The reducer walks down by reference and mutates in place; no
  node is shared, so here the updated child is put back under its key. Calling
  \<^verbatim>\<open>push\<close> on a plain object throws a \<^verbatim>\<open>TypeError\<close>, and the exception leaves
  \<^verbatim>\<open>errorsToMap\<close>.
\<close>

datatype ErrorNode =
    ErrorRecord "(string \<times> ErrorNode) list"
  | ErrorArray "ErrorObject list" "(string \<times> ErrorNode) list"

datatype failure = TypeError

fun ownProps :: "ErrorNode \<Rightarrow> (string \<times> ErrorNode) list" where
  "ownProps (ErrorRecord ps) = ps"
| "ownProps (ErrorArray es ps) = ps"

fun setProp :: "ErrorNode \<Rightarrow> string \<Rightarrow> ErrorNode \<Rightarrow> ErrorNode" where
  "setProp (ErrorRecord ps) key n = ErrorRecord (assign ps key n)"
| "setProp (ErrorArray es ps) key n = ErrorArray es (assign ps key n)"

text \<open>
  The inner \<^verbatim>\<open>path.reduce\<close>: every segment but the last goes down into \<^verbatim>\<open>obj[key]\<close>,
  created as \<^verbatim>\<open>{}\<close> when missing; the last segment pushes the error onto \<^verbatim>\<open>obj[key]\<close>
  or stores \<^verbatim>\<open>[error]\<close> there. An empty path returns the accumulator as it is.
\<close>

fun addError :: "string list \<Rightarrow> ErrorObject \<Rightarrow> ErrorNode \<Rightarrow> failure + ErrorNode" where
  "addError [] error obj = Inr obj"
| "addError [key] error obj =
     (case map_of (ownProps obj) key of
        Some (ErrorArray es ps) \<Rightarrow> Inr (setProp obj key (ErrorArray (es @ [error]) ps))
      | Some (ErrorRecord ps) \<Rightarrow> Inl TypeError
      | None \<Rightarrow> Inr (setProp obj key (ErrorArray [error] [])))"
| "addError (key # rest) error obj =
     (case addError rest error
             (case map_of (ownProps obj) key of Some child \<Rightarrow> child | None \<Rightarrow> ErrorRecord []) of
        Inl f \<Rightarrow> Inl f
      | Inr child' \<Rightarrow> Inr (setProp obj key child'))"

text \<open>The outer \<^verbatim>\<open>reduce\<close> over the pairs of a path and its error.\<close>

fun reduceErrors :: "(string list \<times> ErrorObject) list \<Rightarrow> ErrorNode \<Rightarrow> failure + ErrorNode" where
  "reduceErrors [] acc = Inr acc"
| "reduceErrors ((path, error) # rest) acc =
     (case addError path error acc of
        Inl f \<Rightarrow> Inl f
      | Inr acc' \<Rightarrow> reduceErrors rest acc')"

definition errorsToMap :: "ErrorObject list \<Rightarrow> failure + ErrorNode" where
  "errorsToMap errs =
     reduceErrors (map (\<lambda>error. (errorPath error, error)) errs) (ErrorRecord [])"

text \<open>
  Modelled from the spec: the declaration of \<^verbatim>\<open>ErrorRecord\<close> in \<^verbatim>\<open>./types\<close>, the return
  type of \<^verbatim>\<open>errorsToMap\<close> and the target of its casts, is not among the sources. An error
  tree maps every key to exactly one of a nested error tree and a non-empty list of error
  records: a list carries no keys of its own.
\<close>

fun errorTree :: "ErrorNode \<Rightarrow> bool" where
  "errorTree (ErrorRecord ps) = list_all (\<lambda>p. errorTree (snd p)) ps"
| "errorTree (ErrorArray es ps) = (es \<noteq> [] \<and> ps = [])"

text \<open>
  The paths at which a tree holds an error list, and the trees the reducer builds as long
  as it meets no list where it expects a sub-tree and no sub-tree where it expects a list:
  the keys of a node are distinct, a list is not empty and carries no key, and a sub-tree
  below the root holds at least one list.
\<close>

fun leaves :: "ErrorNode \<Rightarrow> string list set" where
  "leaves (ErrorArray es ps) = {[]}"
| "leaves (ErrorRecord ps) = (\<Union>p \<in> set ps. (#) (fst p) ` leaves (snd p))"

fun sound :: "ErrorNode \<Rightarrow> bool" where
  "sound (ErrorArray es ps) = (es \<noteq> [] \<and> ps = [])"
| "sound (ErrorRecord ps) =
     (distinct (map fst ps) \<and> (\<forall>p \<in> set ps. sound (snd p) \<and> leaves (snd p) \<noteq> {}))"

section \<open>repackComponents, getComponent and getComponentProps\<close>

text \<open>
  Modelled from the spec: the declarations of \<^verbatim>\<open>./types\<close> (\<^verbatim>\<open>FormComponents\<close>,
  \<^verbatim>\<open>PathComponents\<close>, \<^verbatim>\<open>Props\<close>) are not among the sources; the fields are those the
  helpers read. A registry holds the component registered for each schema type name and,
  optionally, \<^verbatim>\<open>path\<close>. An entry of a path mapping is a component, a pair of a component and its
  props (the one entry for which \<^verbatim>\<open>Array.isArray\<close> holds), or a nested path mapping.
  The registry may have more fields than the two the helpers read; the spread
  \<^verbatim>\<open>{ ...components, path }\<close> copies them all.
\<close>

type_synonym Props = JSONObject

datatype 'c PathComponent =
    Component 'c
  | WithProps 'c Props
  | PathComponents "(string \<times> 'c PathComponent) list"

record 'c FormComponents =
  registered :: "(JSONSchemaTypeName \<times> 'c) list"
  path :: "'c PathComponent option"

text \<open>
  The read \<^verbatim>\<open>components.path[key]\<close>. After \<^verbatim>\<open>repackComponents\<close> the field \<^verbatim>\<open>path\<close> may
  hold a component or a pair, on which an ordinary key finds nothing.
\<close>

fun pathEntry :: "'c PathComponent \<Rightarrow> string \<Rightarrow> 'c PathComponent option" where
  "pathEntry (PathComponents m) key = map_of m key"
| "pathEntry _ key = None"

text \<open>\<^verbatim>\<open>components.path && components.path[key]\<close>\<close>

definition pathComponent ::
  "('c, 'z) FormComponents_scheme \<Rightarrow> string \<Rightarrow> 'c PathComponent option" where
  "pathComponent components key =
     (case path components of Some p \<Rightarrow> pathEntry p key | None \<Rightarrow> None)"

definition repackComponents ::
  "('c, 'z) FormComponents_scheme \<Rightarrow> JSONSchemaTypeName \<Rightarrow> string
     \<Rightarrow> ('c, 'z) FormComponents_scheme" where
  "repackComponents components ty key =
     (if ty = TObject then
        (case path components of
           Some p \<Rightarrow> components\<lparr>path := pathEntry p key\<rparr>
         | None \<Rightarrow> components)
      else components)"

text \<open>
  \<^verbatim>\<open>getComponent\<close> returns what it finds under a cast: a component, \<^verbatim>\<open>undefined\<close> when
  nothing is registered for the type, or the override itself when that is not a pair.
\<close>

definition getComponent ::
  "('c, 'z) FormComponents_scheme \<Rightarrow> JSONSchemaTypeName \<Rightarrow> string
     \<Rightarrow> 'c PathComponent option" where
  "getComponent components ty key =
     (let byType = map_option Component (map_of (registered components) ty)
      in if ty = TObject then
           (case pathComponent components key of
              Some (WithProps c props) \<Rightarrow> Some (Component c)
            | Some override \<Rightarrow> Some override
            | None \<Rightarrow> byType)
         else byType)"

definition getComponentProps ::
  "('c, 'z) FormComponents_scheme \<Rightarrow> JSONSchemaTypeName \<Rightarrow> string \<Rightarrow> Props" where
  "getComponentProps components ty key =
     (if ty = TObject then
        (case pathComponent components key of
           Some (WithProps c props) \<Rightarrow> props
         | _ \<Rightarrow> [])
      else [])"

section \<open>Properties of the normalizer\<close>

lemma normalizeNested_JObject: "normalizeNested (JObject props) = normalizeObject props False"
  by (simp add: normalizeNested_def)

lemma assign_keys: "fst ` set (assign obj k v) = insert k (fst ` set obj)"
  by (induction obj k v rule: assign.induct) auto

lemma assign_distinct: "distinct (map fst obj) \<Longrightarrow> distinct (map fst (assign obj k v))"
  by (induction obj k v rule: assign.induct) (auto simp: assign_keys)

lemma assign_values: "(k', w) \<in> set (assign obj k v) \<Longrightarrow> w = v \<or> (k', w) \<in> set obj"
  by (induction obj k v rule: assign.induct) (auto split: if_splits)

lemma assign_fresh: "k \<notin> fst ` set obj \<Longrightarrow> assign obj k v = obj @ [(k, v)]"
  by (induction obj k v rule: assign.induct) auto

lemma normalizeProps_Cons:
  "normalizeProps ((k, v) # rest) obj =
     normalizeProps rest
       (if normalizeNested v \<noteq> JNull then assign obj k (normalizeNested v) else obj)"
  by (simp add: normalizeNested_def Let_def)

lemma normalizeObject_eq:
  "normalizeObject val isRoot =
     (if normalizeProps val [] \<noteq> [] then JObject (normalizeProps val [])
      else if isRoot then JObject [] else JNull)"
  by (simp add: Let_def)

declare normalizeProps.simps(2) [simp del] normalizeObject.simps [simp del]

text \<open>The properties the loop leaves: those of \<^verbatim>\<open>obj\<close> and those it did not drop.\<close>

lemma normalizeProps_keys:
  "fst ` set (normalizeProps ps obj) =
     fst ` set obj \<union> {k. \<exists>v. (k, v) \<in> set ps \<and> normalizeNested v \<noteq> JNull}"
proof (induction ps arbitrary: obj)
  case Nil
  then show ?case by simp
next
  case (Cons p ps)
  obtain k v where p: "p = (k, v)" by (cases p)
  show ?case
    unfolding p normalizeProps_Cons Cons.IH by (auto simp: assign_keys)
qed

text \<open>A list of settled properties with distinct names goes through the loop unchanged.\<close>

lemma normalizeProps_settled:
  "distinct (map fst R) \<Longrightarrow> \<forall>(k, w) \<in> set R. settled w \<Longrightarrow> fst ` set R \<inter> fst ` set acc = {}
   \<Longrightarrow> normalizeProps R acc = acc @ R"
proof (induction R arbitrary: acc)
  case Nil
  then show ?case by simp
next
  case (Cons p R)
  obtain k w where p: "p = (k, w)" by (cases p)
  from Cons.prems p have w: "w \<noteq> JNull" "normalizeNested w = w" by (auto simp: settled_def)
  from Cons.prems p have fresh: "k \<notin> fst ` set acc" by auto
  have "normalizeProps (p # R) acc = normalizeProps R (acc @ [(k, w)])"
    using w fresh by (simp add: p normalizeProps_Cons assign_fresh)
  also have "\<dots> = (acc @ [(k, w)]) @ R"
    using Cons.prems p by (intro Cons.IH) auto
  finally show ?case by (simp add: p)
qed

text \<open>
  The loop keeps the names of \<^verbatim>\<open>obj\<close> distinct and its values settled, and an object
  that \<^verbatim>\<open>normalizeObject\<close> has built is a fixed point of \<^verbatim>\<open>normalizeObject\<close>.
\<close>

lemma normalize_invariant:
  "(distinct (map fst obj) \<longrightarrow> (\<forall>(k, w) \<in> set obj. settled w) \<longrightarrow>
      distinct (map fst (normalizeProps ps obj)) \<and>
      (\<forall>(k, w) \<in> set (normalizeProps ps obj). settled w))"
  "normalizeObject (normalizeProps val []) isRoot = normalizeObject val isRoot"
proof (induction ps obj and val isRoot rule: normalizeProps_normalizeObject.induct)
  case (1 obj)
  then show ?case by simp
next
  case (2 k v rest obj)
  have kept: "normalizeNested v \<noteq> JNull \<Longrightarrow> settled (normalizeNested v)"
  proof (cases v)
    case (JObject props)
    assume nn: "normalizeNested v \<noteq> JNull"
    have stable: "normalizeObject (normalizeProps props []) False = normalizeObject props False"
      using 2(1)[OF JObject] .
    have nvv: "normalizeNested v = normalizeObject props False"
      by (simp add: normalizeNested_def JObject)
    with nn have obj: "normalizeNested v = JObject (normalizeProps props [])"
      by (simp add: normalizeObject_eq split: if_splits)
    have "normalizeNested (normalizeNested v) = normalizeObject (normalizeProps props []) False"
      by (simp only: obj normalizeNested_JObject)
    with stable nvv have "normalizeNested (normalizeNested v) = normalizeNested v" by simp
    with nn show ?thesis by (simp add: settled_def)
  qed (auto simp: settled_def normalizeNested_def)
  show ?case
  proof (intro impI)
    assume d: "distinct (map fst obj)" and s: "\<forall>(k, w) \<in> set obj. settled w"
    let ?obj' = "if normalizeNested v \<noteq> JNull then assign obj k (normalizeNested v) else obj"
    have d': "distinct (map fst ?obj')" using d by (simp add: assign_distinct)
    have s': "\<forall>(k, w) \<in> set ?obj'. settled w"
      using s kept by (auto dest: assign_values)
    have "normalizeNested v = (case v of JObject props \<Rightarrow> normalizeObject props False | _ \<Rightarrow> v)"
      by (simp add: normalizeNested_def)
    from 2(2)[OF this] d' s'
    show "distinct (map fst (normalizeProps ((k, v) # rest) obj)) \<and>
          (\<forall>(k, w) \<in> set (normalizeProps ((k, v) # rest) obj). settled w)"
      unfolding normalizeProps_Cons by blast
  qed
next
  case (3 val isRoot)
  then have "distinct (map fst (normalizeProps val []))"
    "\<forall>(k, w) \<in> set (normalizeProps val []). settled w"
    by auto
  then have "normalizeProps (normalizeProps val []) [] = normalizeProps val []"
    by (intro normalizeProps_settled[where acc="[]", simplified]) auto
  then show ?case by (simp add: normalizeObject_eq)
qed

lemma normalizeValue_JObject:
  "normalizeValue (JObject val) = JObject (normalizeProps val [])"
  by (simp add: normalizeValue_def normalizeObject_eq)

section \<open>createProps: the claim\<close>

text \<open>
  C9. For every argument, and also when the argument is left out (it then defaults to
  \<^verbatim>\<open>null\<close>), \<^verbatim>\<open>createProps\<close> returns a props record whose \<^verbatim>\<open>value\<close> is the argument
  and whose \<^verbatim>\<open>errors\<close> is \<^verbatim>\<open>null\<close>.
\<close>

theorem createProps_value_and_errors:
  "createProps (Some v) = \<lparr>propsValue = v, propsErrors = None\<rparr>
   \<and> createProps None = \<lparr>propsValue = None, propsErrors = None\<rparr>"
  by (simp add: createProps_def)

section \<open>The normalizer: the claims\<close>

text \<open>
  C6. At the root \<^verbatim>\<open>normalizeValue\<close> turns the empty mapping into the empty mapping, and
  a mapping at the root never becomes \<^verbatim>\<open>null\<close>. A nested mapping that normalizes to no
  key collapses to \<^verbatim>\<open>null\<close>, and the parent drops its key. For example
  \<^verbatim>\<open>normalizeValue({a: {}, b: {c: 1}})\<close> is \<^verbatim>\<open>{b: {c: 1}}\<close>.
\<close>

theorem normalizeValue_root_and_nested:
  "normalizeValue (JObject []) = JObject []
   \<and> (\<exists>obj. normalizeValue (JObject val) = JObject obj)
   \<and> normalizeObject [] False = JNull
   \<and> (normalizeProps sub [] = [] \<longrightarrow> normalizeObject sub False = JNull)
   \<and> (distinct (map fst val) \<and> (k, JObject sub) \<in> set val \<and> normalizeObject sub False = JNull
        \<longrightarrow> (\<exists>obj. normalizeValue (JObject val) = JObject obj \<and> k \<notin> fst ` set obj))
   \<and> normalizeValue (JObject [(''a'', JObject []), (''b'', JObject [(''c'', JNum 1)])])
       = JObject [(''b'', JObject [(''c'', JNum 1)])]"
proof (intro conjI impI)
  show "normalizeValue (JObject []) = JObject []"
    by (simp add: normalizeValue_JObject)
  show "\<exists>obj. normalizeValue (JObject val) = JObject obj"
    by (simp add: normalizeValue_JObject)
  show "normalizeObject [] False = JNull"
    by (simp add: normalizeObject_eq)
  show "normalizeObject sub False = JNull" if "normalizeProps sub [] = []"
    using that by (simp add: normalizeObject_eq)
  show "\<exists>obj. normalizeValue (JObject val) = JObject obj \<and> k \<notin> fst ` set obj"
    if h: "distinct (map fst val) \<and> (k, JObject sub) \<in> set val \<and> normalizeObject sub False = JNull"
  proof -
    have "normalizeNested v = JNull" if "(k, v) \<in> set val" for v
    proof -
      have "v = JObject sub" using h that by (metis eq_key_imp_eq_value)
      with h show ?thesis by (simp add: normalizeNested_JObject)
    qed
    then have "k \<notin> fst ` set (normalizeProps val [])"
      by (auto simp: normalizeProps_keys)
    then show ?thesis by (simp add: normalizeValue_JObject)
  qed
  show "normalizeValue (JObject [(''a'', JObject []), (''b'', JObject [(''c'', JNum 1)])])
       = JObject [(''b'', JObject [(''c'', JNum 1)])]"
    by (simp add: normalizeValue_JObject normalizeProps_Cons normalizeNested_def normalizeObject_eq)
qed

theorem normalizeValue_root_and_nested_witness:
  "\<exists>obj. normalizeValue (JObject [(''a'', JObject []), (''b'', JNum 1)]) = JObject obj
          \<and> ''a'' \<notin> fst ` set obj \<and> normalizeProps [] [] = []"
  using normalizeValue_root_and_nested [of "[(''a'', JObject []), (''b'', JNum 1)]" "[]" "''a''"]
  by simp

text \<open>
  C7. \<^verbatim>\<open>normalizeValue\<close> is idempotent: applied to its own result it returns that result.
\<close>

theorem normalizeValue_idempotent:
  "normalizeValue (normalizeValue v) = normalizeValue v"
proof (cases v)
  case (JObject val)
  have "normalizeValue v = JObject (normalizeProps val [])"
    by (simp add: JObject normalizeValue_JObject)
  then have "normalizeValue (normalizeValue v) = normalizeObject (normalizeProps val []) True"
    by (simp add: normalizeValue_def)
  also have "\<dots> = normalizeObject val True"
    by (rule normalize_invariant(2))
  finally show ?thesis by (simp add: JObject normalizeValue_def)
qed (simp_all add: normalizeValue_def)

section \<open>defaultValue: the claim\<close>

text \<open>
  C5. On the object schema with the properties
  \<^verbatim>\<open>{a: {type: "string", default: "x"}, b: {type: "number"}}\<close> the input \<^verbatim>\<open>null\<close> gives
  \<^verbatim>\<open>{a: "x", b: null}\<close>. On the empty mapping, which is not \<^verbatim>\<open>null\<close> and lacks both keys,
  \<^verbatim>\<open>value && value[k]\<close> is \<^verbatim>\<open>undefined\<close>, the test \<^verbatim>\<open>value === null\<close> fails, and the default
  of \<^verbatim>\<open>a\<close> is not substituted: the result is \<^verbatim>\<open>{a: undefined, b: undefined}\<close>.
\<close>

theorem defaultValue_missing_key:
  "defaultValue
     (Schema (OneType TObject) JUndefined
        (Some [(''a'', Schema (OneType TString) (JStr ''x'') None),
               (''b'', Schema (OneType TNumber) JUndefined None)]))
     (JObject [])
   = JObject [(''a'', JUndefined), (''b'', JUndefined)]
   \<and> defaultValue
     (Schema (OneType TObject) JUndefined
        (Some [(''a'', Schema (OneType TString) (JStr ''x'') None),
               (''b'', Schema (OneType TNumber) JUndefined None)]))
     JNull
   = JObject [(''a'', JStr ''x''), (''b'', JNull)]"
  by (simp add: getProperty_def)

section \<open>errorsToMap: the claims\<close>

lemma splitOn_nonempty: "splitOn sep s \<noteq> []"
  by (induction s) (auto split: list.splits)

text \<open>No segment holds the separator, and a string without it is its only segment.\<close>

lemma splitOn_no_separator: "w \<in> set (splitOn sep s) \<Longrightarrow> sep \<notin> set w"
proof (induction s arbitrary: w)
  case Nil
  then show ?case by simp
next
  case (Cons c s)
  obtain w0 ws where sp: "splitOn sep s = w0 # ws"
    using splitOn_nonempty[of sep s] by (cases "splitOn sep s") auto
  from Cons.IH sp have "sep \<notin> set w0" "\<And>u. u \<in> set ws \<Longrightarrow> sep \<notin> set u" by auto
  with Cons.prems sp show ?case by (auto split: if_splits)
qed

lemma splitOn_segment: "sep \<notin> set w \<Longrightarrow> splitOn sep w = [w]"
  by (induction w) auto

lemma splitOn_append: "splitOn sep (s @ sep # t) = splitOn sep s @ splitOn sep t"
proof (induction s)
  case Nil
  then show ?case using splitOn_nonempty[of sep t] by (simp split: list.splits)
next
  case (Cons c s)
  then show ?case using splitOn_nonempty[of sep s] by (auto split: list.splits)
qed

lemma reduceErrors_append:
  "reduceErrors (xs @ ys) acc =
     (case reduceErrors xs acc of Inl f \<Rightarrow> Inl f | Inr acc' \<Rightarrow> reduceErrors ys acc')"
  by (induction xs acc rule: reduceErrors.induct) (auto split: sum.splits)

text \<open>
  Where no field path is a proper beginning of another one, the reducer never meets the
  wrong kind of node: every step returns, adds its path to the paths that hold a list,
  and the tree that \<^verbatim>\<open>errorsToMap\<close> returns is an error tree.
\<close>

lemma sound_errorTree: "sound t \<Longrightarrow> errorTree t"
  by (induction t rule: errorTree.induct) (auto simp: list_all_iff)

lemma leaves_under_key:
  "distinct (map fst ps) \<Longrightarrow>
     {q \<in> leaves (ErrorRecord ps). \<exists>r. q = key # r}
       = (case map_of ps key of None \<Rightarrow> {} | Some c \<Rightarrow> (#) key ` leaves c)"
proof (induction ps)
  case Nil
  then show ?case by simp
next
  case (Cons a ps)
  obtain k n where a: "a = (k, n)" by (cases a)
  have split: "{q \<in> leaves (ErrorRecord (a # ps)). \<exists>r. q = key # r}
      = {q \<in> (#) k ` leaves n. \<exists>r. q = key # r} \<union> {q \<in> leaves (ErrorRecord ps). \<exists>r. q = key # r}"
    by (auto simp: a)
  show ?case
  proof (cases "k = key")
    case True
    with Cons.prems a have "map_of ps key = None"
      by (simp add: map_of_eq_None_iff)
    with Cons.IH Cons.prems a have "{q \<in> leaves (ErrorRecord ps). \<exists>r. q = key # r} = {}" by simp
    with True show ?thesis unfolding split by (auto simp: a)
  next
    case False
    then have e: "{q \<in> (#) k ` leaves n. \<exists>r. q = key # r} = {}" by auto
    have "map_of (a # ps) key = map_of ps key" using False by (simp add: a)
    moreover have "{q \<in> leaves (ErrorRecord ps). \<exists>r. q = key # r}
        = (case map_of ps key of None \<Rightarrow> {} | Some c \<Rightarrow> (#) key ` leaves c)"
      using Cons.IH Cons.prems by simp
    ultimately show ?thesis unfolding split e by simp
  qed
qed

lemma leaves_assign:
  "distinct (map fst ps) \<Longrightarrow>
     leaves (ErrorRecord (assign ps key n))
       = {q \<in> leaves (ErrorRecord ps). \<forall>r. q \<noteq> key # r} \<union> (#) key ` leaves n"
proof (induction ps)
  case Nil
  then show ?case by simp
next
  case (Cons a ps)
  obtain k c where a: "a = (k, c)" by (cases a)
  show ?case
  proof (cases "k = key")
    case True
    with Cons.prems a have "map_of ps key = None" by (simp add: map_of_eq_None_iff)
    with leaves_under_key[of ps key] Cons.prems
    have "{q \<in> leaves (ErrorRecord ps). \<exists>r. q = key # r} = {}" by simp
    then have "{q \<in> leaves (ErrorRecord ps). \<forall>r. q \<noteq> key # r} = leaves (ErrorRecord ps)" by auto
    with True show ?thesis by (auto simp: a)
  next
    case False
    with Cons.IH Cons.prems show ?thesis by (auto simp: a)
  qed
qed

lemma sound_assign:
  "sound (ErrorRecord ps) \<Longrightarrow> sound n \<Longrightarrow> leaves n \<noteq> {} \<Longrightarrow> sound (ErrorRecord (assign ps key n))"
  by (auto simp: assign_distinct dest: assign_values)

lemma leaves_partition:
  "distinct (map fst ps) \<Longrightarrow>
     leaves (ErrorRecord ps)
       = {q \<in> leaves (ErrorRecord ps). \<forall>r. q \<noteq> key # r}
         \<union> (case map_of ps key of None \<Rightarrow> {} | Some c \<Rightarrow> (#) key ` leaves c)"
  using leaves_under_key[of ps key] by blast

lemma leaves_record_nonempty: "q \<in> leaves (ErrorRecord ps) \<Longrightarrow> q \<noteq> []"
  by auto

lemma sound_child:
  "sound (ErrorRecord ps) \<Longrightarrow> map_of ps key = Some c \<Longrightarrow> sound c \<and> leaves c \<noteq> {}"
  by (auto dest!: map_of_SomeD)

lemma addError_prefix_free:
  "p \<noteq> [] \<Longrightarrow> sound (ErrorRecord ps) \<Longrightarrow>
   \<forall>q \<in> leaves (ErrorRecord ps). \<not> strict_prefix p q \<and> \<not> strict_prefix q p \<Longrightarrow>
   \<exists>ps'. addError p e (ErrorRecord ps) = Inr (ErrorRecord ps')
        \<and> sound (ErrorRecord ps')
        \<and> leaves (ErrorRecord ps') = insert p (leaves (ErrorRecord ps))"
proof (induction p arbitrary: ps)
  case Nil
  then show ?case by simp
next
  case (Cons key rest)
  have dist: "distinct (map fst ps)" using Cons.prems(2) by simp
  define A where "A = {q \<in> leaves (ErrorRecord ps). \<forall>r. q \<noteq> key # r}"
  have part: "leaves (ErrorRecord ps)
      = A \<union> (case map_of ps key of None \<Rightarrow> {} | Some c \<Rightarrow> (#) key ` leaves c)"
    unfolding A_def by (rule leaves_partition[OF dist])
  have upd: "leaves (ErrorRecord (assign ps key n)) = A \<union> (#) key ` leaves n" for n
    unfolding A_def by (rule leaves_assign[OF dist])
  show ?case
  proof (cases rest)
    case Nil
    show ?thesis
    proof (cases "map_of ps key")
      case None
      let ?n = "ErrorArray [e] []"
      have "addError (key # rest) e (ErrorRecord ps) = Inr (ErrorRecord (assign ps key ?n))"
        by (simp add: Nil None)
      moreover have "sound (ErrorRecord (assign ps key ?n))"
        using Cons.prems(2) by (intro sound_assign) auto
      moreover have "leaves (ErrorRecord (assign ps key ?n)) = insert (key # rest) (leaves (ErrorRecord ps))"
        by (simp add: upd part None Nil del: leaves.simps(2))
      ultimately show ?thesis by blast
    next
      case (Some c)
      from sound_child[OF Cons.prems(2) Some] have c: "sound c" "leaves c \<noteq> {}" by auto
      show ?thesis
      proof (cases c)
        case (ErrorArray es ps0)
        with c have es: "es \<noteq> []" "ps0 = []" by auto
        let ?n = "ErrorArray (es @ [e]) []"
        have "addError (key # rest) e (ErrorRecord ps) = Inr (ErrorRecord (assign ps key ?n))"
          by (simp add: Nil Some ErrorArray es)
        moreover have "sound (ErrorRecord (assign ps key ?n))"
          using Cons.prems(2) by (intro sound_assign) auto
        moreover have "leaves (ErrorRecord (assign ps key ?n)) = insert (key # rest) (leaves (ErrorRecord ps))"
          by (simp add: upd part Some Nil ErrorArray del: leaves.simps(2))
        ultimately show ?thesis by blast
      next
        case (ErrorRecord cs)
        from c obtain q where q: "q \<in> leaves c" by auto
        then have "q \<noteq> []" using ErrorRecord leaves_record_nonempty by blast
        moreover have "key # q \<in> leaves (ErrorRecord ps)"
          using q by (simp add: part Some del: leaves.simps(2))
        ultimately have "key # q \<in> leaves (ErrorRecord ps)" "strict_prefix (key # rest) (key # q)"
          using Nil by (simp_all add: strict_prefix_def)
        then have False using Cons.prems(3) by blast
        then show ?thesis ..
      qed
    qed
  next
    case (Cons r rs)
    then have rest: "rest \<noteq> []" by simp
    show ?thesis
    proof (cases "map_of ps key")
      case None
      have "\<exists>cs'. addError rest e (ErrorRecord []) = Inr (ErrorRecord cs')
          \<and> sound (ErrorRecord cs') \<and> leaves (ErrorRecord cs') = insert rest (leaves (ErrorRecord []))"
        using rest by (intro Cons.IH) auto
      then obtain cs' where cs': "addError rest e (ErrorRecord []) = Inr (ErrorRecord cs')"
        "sound (ErrorRecord cs')" "leaves (ErrorRecord cs') = {rest}" by auto
      let ?n = "ErrorRecord cs'"
      have "addError (key # rest) e (ErrorRecord ps) = Inr (ErrorRecord (assign ps key ?n))"
        using cs'(1) by (simp add: Cons None)
      moreover have "sound (ErrorRecord (assign ps key ?n))"
        using Cons.prems(2) cs' by (intro sound_assign) auto
      moreover have "leaves (ErrorRecord (assign ps key ?n)) = insert (key # rest) (leaves (ErrorRecord ps))"
        by (simp add: upd part cs'(3) None del: leaves.simps(2))
      ultimately show ?thesis by blast
    next
      case (Some c)
      from sound_child[OF Cons.prems(2) Some] have c: "sound c" "leaves c \<noteq> {}" by auto
      show ?thesis
      proof (cases c)
        case (ErrorArray es ps0)
        have "[key] \<in> leaves (ErrorRecord ps)"
          by (simp add: part Some ErrorArray del: leaves.simps(2))
        moreover have "strict_prefix [key] (key # rest)"
          using rest by (simp add: strict_prefix_def)
        ultimately have False using Cons.prems(3) by blast
        then show ?thesis ..
      next
        case (ErrorRecord cs)
        have below: "key # q \<in> leaves (ErrorRecord ps)" if "q \<in> leaves (ErrorRecord cs)" for q
          using that by (simp add: part Some ErrorRecord del: leaves.simps(2))
        have "\<exists>cs'. addError rest e (ErrorRecord cs) = Inr (ErrorRecord cs')
            \<and> sound (ErrorRecord cs') \<and> leaves (ErrorRecord cs') = insert rest (leaves (ErrorRecord cs))"
        proof (intro Cons.IH rest ballI)
          show "sound (ErrorRecord cs)" using c ErrorRecord by simp
          fix q assume "q \<in> leaves (ErrorRecord cs)"
          from Cons.prems(3) below[OF this]
          have "\<not> strict_prefix (key # rest) (key # q) \<and> \<not> strict_prefix (key # q) (key # rest)"
            by blast
          then show "\<not> strict_prefix rest q \<and> \<not> strict_prefix q rest"
            by (simp add: strict_prefix_def)
        qed
        then obtain cs' where cs': "addError rest e (ErrorRecord cs) = Inr (ErrorRecord cs')"
          "sound (ErrorRecord cs')"
          "leaves (ErrorRecord cs') = insert rest (leaves (ErrorRecord cs))" by auto
        let ?n = "ErrorRecord cs'"
        have "addError (key # rest) e (ErrorRecord ps) = Inr (ErrorRecord (assign ps key ?n))"
          using cs'(1) by (simp add: Cons Some ErrorRecord)
        moreover have "sound (ErrorRecord (assign ps key ?n))"
          using Cons.prems(2) cs' by (intro sound_assign) auto
        moreover have "leaves (ErrorRecord (assign ps key ?n)) = insert (key # rest) (leaves (ErrorRecord ps))"
          by (simp add: upd part cs'(3) Some ErrorRecord image_insert del: leaves.simps(2))
        ultimately show ?thesis by blast
      qed
    qed
  qed
qed

lemma reduceErrors_prefix_free:
  "sound (ErrorRecord ps) \<Longrightarrow>
   \<forall>p \<in> fst ` set pes \<union> leaves (ErrorRecord ps).
     \<forall>q \<in> fst ` set pes \<union> leaves (ErrorRecord ps). p \<noteq> [] \<longrightarrow> \<not> strict_prefix p q \<Longrightarrow>
   \<exists>ps'. reduceErrors pes (ErrorRecord ps) = Inr (ErrorRecord ps') \<and> sound (ErrorRecord ps')"
proof (induction pes arbitrary: ps)
  case Nil
  then show ?case by simp
next
  case (Cons a pes)
  obtain p e where a: "a = (p, e)" by (cases a)
  let ?S = "fst ` set (a # pes) \<union> leaves (ErrorRecord ps)"
  have free: "\<not> strict_prefix x y" if "x \<in> ?S" "y \<in> ?S" "x \<noteq> []" for x y
    using Cons.prems(2) that by blast
  show ?case
  proof (cases "p = []")
    case True
    have "\<exists>ps'. reduceErrors pes (ErrorRecord ps) = Inr (ErrorRecord ps') \<and> sound (ErrorRecord ps')"
    proof (intro Cons.IH Cons.prems(1) ballI impI)
      fix x y
      assume "x \<in> fst ` set pes \<union> leaves (ErrorRecord ps)"
        "y \<in> fst ` set pes \<union> leaves (ErrorRecord ps)" "x \<noteq> []"
      then show "\<not> strict_prefix x y" by (intro free) auto
    qed
    then show ?thesis by (simp add: a True)
  next
    case False
    have "\<exists>ps'. addError p e (ErrorRecord ps) = Inr (ErrorRecord ps') \<and> sound (ErrorRecord ps')
          \<and> leaves (ErrorRecord ps') = insert p (leaves (ErrorRecord ps))"
    proof (intro addError_prefix_free False Cons.prems(1) ballI conjI)
      fix q assume q: "q \<in> leaves (ErrorRecord ps)"
      show "\<not> strict_prefix p q" using q False by (intro free) (auto simp: a)
      have "q \<noteq> []" using q by (rule leaves_record_nonempty)
      then show "\<not> strict_prefix q p" using q by (intro free) (auto simp: a)
    qed
    then obtain ps' where ps': "addError p e (ErrorRecord ps) = Inr (ErrorRecord ps')"
      "sound (ErrorRecord ps')" "leaves (ErrorRecord ps') = insert p (leaves (ErrorRecord ps))"
      by blast
    have "\<exists>ps''. reduceErrors pes (ErrorRecord ps') = Inr (ErrorRecord ps'') \<and> sound (ErrorRecord ps'')"
    proof (intro Cons.IH ps'(2) ballI impI)
      fix x y
      assume "x \<in> fst ` set pes \<union> leaves (ErrorRecord ps')"
        "y \<in> fst ` set pes \<union> leaves (ErrorRecord ps')" "x \<noteq> []"
      then show "\<not> strict_prefix x y" unfolding ps'(3) by (intro free) (auto simp: a)
    qed
    then show ?thesis by (simp add: a ps'(1))
  qed
qed

lemma errorsToMap_prefix_free:
  "\<forall>e \<in> set errs. \<forall>e' \<in> set errs.
      errorPath e \<noteq> [] \<longrightarrow> \<not> strict_prefix (errorPath e) (errorPath e') \<Longrightarrow>
   \<exists>t. errorsToMap errs = Inr t \<and> errorTree t"
proof -
  assume free: "\<forall>e \<in> set errs. \<forall>e' \<in> set errs.
      errorPath e \<noteq> [] \<longrightarrow> \<not> strict_prefix (errorPath e) (errorPath e')"
  let ?pes = "map (\<lambda>error. (errorPath error, error)) errs"
  have "\<exists>ps'. reduceErrors ?pes (ErrorRecord []) = Inr (ErrorRecord ps') \<and> sound (ErrorRecord ps')"
  proof (intro reduceErrors_prefix_free ballI impI)
    show "sound (ErrorRecord [])" by simp
    fix p q
    assume "p \<in> fst ` set ?pes \<union> leaves (ErrorRecord [])"
      "q \<in> fst ` set ?pes \<union> leaves (ErrorRecord [])" "p \<noteq> []"
    then show "\<not> strict_prefix p q" using free by (auto simp: image_image)
  qed
  then obtain ps' where "errorsToMap errs = Inr (ErrorRecord ps')" "sound (ErrorRecord ps')"
    unfolding errorsToMap_def by blast
  then show ?thesis using sound_errorTree by blast
qed

text \<open>
  C1. The invariant of the error tree, every key mapping to exactly one of a sub-tree and
  a non-empty error list, fails where the path of one error is the beginning of the path
  of another. On a \<^verbatim>\<open>minProperties\<close> error at \<^verbatim>\<open>.a\<close> followed by a \<^verbatim>\<open>required\<close> error
  at \<^verbatim>\<open>.a\<close> for the property \<^verbatim>\<open>b\<close>, the first makes \<^verbatim>\<open>a\<close> an error list; the second
  goes down into that list as if it were a sub-tree and writes the key \<^verbatim>\<open>b\<close> on it, so
  \<^verbatim>\<open>a\<close> ends as an error list that is a sub-tree too. When the shorter path comes second
  (a \<^verbatim>\<open>required\<close> error at \<^verbatim>\<open>.a\<close> for \<^verbatim>\<open>b\<close>, then an \<^verbatim>\<open>additionalProperties\<close> error
  at \<^verbatim>\<open>.a\<close>), \<^verbatim>\<open>push\<close> is called on the sub-tree and \<^verbatim>\<open>errorsToMap\<close> throws.
\<close>

theorem errorsToMap_path_below_error_list:
  "errorsToMap
     [\<lparr>keyword = ''minProperties'', dataPath = ''.a'', params = [(''limit'', ''1'')]\<rparr>,
      \<lparr>keyword = ''required'', dataPath = ''.a'', params = [(''missingProperty'', ''b'')]\<rparr>]
   = Inr (ErrorRecord
       [(''a'', ErrorArray
          [\<lparr>keyword = ''minProperties'', dataPath = ''.a'', params = [(''limit'', ''1'')]\<rparr>]
          [(''b'', ErrorArray
             [\<lparr>keyword = ''required'', dataPath = ''.a'',
               params = [(''missingProperty'', ''b'')]\<rparr>] [])])])
   \<and> \<not> errorTree (ErrorRecord
       [(''a'', ErrorArray
          [\<lparr>keyword = ''minProperties'', dataPath = ''.a'', params = [(''limit'', ''1'')]\<rparr>]
          [(''b'', ErrorArray
             [\<lparr>keyword = ''required'', dataPath = ''.a'',
               params = [(''missingProperty'', ''b'')]\<rparr>] [])])])
   \<and> errorsToMap
     [\<lparr>keyword = ''required'', dataPath = ''.a'', params = [(''missingProperty'', ''b'')]\<rparr>,
      \<lparr>keyword = ''additionalProperties'', dataPath = ''.a'',
        params = [(''additionalProperty'', ''x'')]\<rparr>]
   = Inl TypeError"
  by (simp add: errorsToMap_def errorPath_def pathSuffix_def interpolate_def)

text \<open>
  C4. The field path of an error is its data path, with \<^verbatim>\<open>.\<close> and the name of the missing
  property appended when the keyword is \<^verbatim>\<open>required\<close>, split on \<^verbatim>\<open>.\<close>, without the first
  segment; for \<^verbatim>\<open>required\<close> that is the path of the data path followed by the segments of
  the name. \<^verbatim>\<open>errorsToMap\<close> places each error along that path. On
  \<^verbatim>\<open>[{dataPath: ".foo", keyword: "type"},
  {dataPath: "", keyword: "required", params: {missingProperty: "bar"}}]\<close> the tree has
  exactly the keys \<^verbatim>\<open>foo\<close> and \<^verbatim>\<open>bar\<close>, each with the list of its one error.
\<close>

theorem errorsToMap_field_path:
  "(keyword error \<noteq> ''required'' \<longrightarrow>
      errorPath error = drop 1 (splitOn (CHR ''.'') (dataPath error)))
   \<and> (keyword error = ''required'' \<longrightarrow>
      errorPath error =
        drop 1 (splitOn (CHR ''.'')
          (dataPath error @ ''.'' @ interpolate (params error) ''missingProperty''))
      \<and> errorPath error =
        drop 1 (splitOn (CHR ''.'') (dataPath error))
          @ splitOn (CHR ''.'') (interpolate (params error) ''missingProperty''))
   \<and> errorsToMap [error] = addError (errorPath error) error (ErrorRecord [])
   \<and> errorsToMap
        [\<lparr>keyword = ''type'', dataPath = ''.foo'', params = []\<rparr>,
         \<lparr>keyword = ''required'', dataPath = '''', params = [(''missingProperty'', ''bar'')]\<rparr>]
      = Inr (ErrorRecord
          [(''foo'', ErrorArray [\<lparr>keyword = ''type'', dataPath = ''.foo'', params = []\<rparr>] []),
           (''bar'', ErrorArray
              [\<lparr>keyword = ''required'', dataPath = '''',
                params = [(''missingProperty'', ''bar'')]\<rparr>] [])])"
proof (intro conjI impI)
  show "errorPath error = drop 1 (splitOn (CHR ''.'') (dataPath error))"
    if "keyword error \<noteq> ''required''"
    using that by (simp add: errorPath_def pathSuffix_def)
  show req: "errorPath error =
        drop 1 (splitOn (CHR ''.'')
          (dataPath error @ ''.'' @ interpolate (params error) ''missingProperty''))"
    if "keyword error = ''required''"
    using that by (simp add: errorPath_def pathSuffix_def)
  show "errorPath error =
        drop 1 (splitOn (CHR ''.'') (dataPath error))
          @ splitOn (CHR ''.'') (interpolate (params error) ''missingProperty'')"
    if "keyword error = ''required''"
  proof -
    obtain w ws where "splitOn (CHR ''.'') (dataPath error) = w # ws"
      using splitOn_nonempty[of "CHR ''.''" "dataPath error"]
      by (cases "splitOn (CHR ''.'') (dataPath error)") auto
    then show ?thesis
      unfolding req[OF that] by (simp add: splitOn_append del: splitOn.simps)
  qed
  show "errorsToMap [error] = addError (errorPath error) error (ErrorRecord [])"
    by (simp add: errorsToMap_def split: sum.splits)
  show "errorsToMap
        [\<lparr>keyword = ''type'', dataPath = ''.foo'', params = []\<rparr>,
         \<lparr>keyword = ''required'', dataPath = '''', params = [(''missingProperty'', ''bar'')]\<rparr>]
      = Inr (ErrorRecord
          [(''foo'', ErrorArray [\<lparr>keyword = ''type'', dataPath = ''.foo'', params = []\<rparr>] []),
           (''bar'', ErrorArray
              [\<lparr>keyword = ''required'', dataPath = '''',
                params = [(''missingProperty'', ''bar'')]\<rparr>] [])])"
    by (simp add: errorsToMap_def errorPath_def pathSuffix_def interpolate_def)
qed

theorem errorsToMap_field_path_witness:
  "errorPath \<lparr>keyword = ''type'', dataPath = ''.foo.bar'', params = []\<rparr> = [''foo'', ''bar'']
   \<and> errorPath \<lparr>keyword = ''required'', dataPath = ''.foo'',
        params = [(''missingProperty'', ''bar'')]\<rparr> = [''foo'', ''bar'']"
  using errorsToMap_field_path [of "\<lparr>keyword = ''type'', dataPath = ''.foo.bar'', params = []\<rparr>"]
    errorsToMap_field_path [of "\<lparr>keyword = ''required'', dataPath = ''.foo'',
        params = [(''missingProperty'', ''bar'')]\<rparr>"]
  by (simp add: interpolate_def)

text \<open>
  C10. An error that is not a \<^verbatim>\<open>required\<close> error and has the empty data path has the
  empty field path, and an error with the empty field path adds nothing: the result, a
  tree or the exception, is that of the other errors alone.
\<close>

theorem errorsToMap_empty_path_dropped:
  "(keyword error \<noteq> ''required'' \<and> dataPath error = '''' \<longrightarrow> errorPath error = [])
   \<and> (errorPath error = [] \<longrightarrow>
        errorsToMap (before @ error # after) = errorsToMap (before @ after))"
proof (intro conjI impI)
  show "errorPath error = []" if "keyword error \<noteq> ''required'' \<and> dataPath error = ''''"
    using that by (simp add: errorPath_def pathSuffix_def)
  show "errorsToMap (before @ error # after) = errorsToMap (before @ after)"
    if "errorPath error = []"
    using that by (simp add: errorsToMap_def reduceErrors_append split: sum.splits)
qed

theorem errorsToMap_empty_path_dropped_witness:
  "errorPath \<lparr>keyword = ''type'', dataPath = '''', params = []\<rparr> = []
   \<and> errorsToMap
        [\<lparr>keyword = ''type'', dataPath = ''.foo'', params = []\<rparr>,
         \<lparr>keyword = ''type'', dataPath = '''', params = []\<rparr>,
         \<lparr>keyword = ''type'', dataPath = ''.bar'', params = []\<rparr>]
     = errorsToMap
        [\<lparr>keyword = ''type'', dataPath = ''.foo'', params = []\<rparr>,
         \<lparr>keyword = ''type'', dataPath = ''.bar'', params = []\<rparr>]"
  using errorsToMap_empty_path_dropped
    [of "\<lparr>keyword = ''type'', dataPath = '''', params = []\<rparr>"
        "[\<lparr>keyword = ''type'', dataPath = ''.foo'', params = []\<rparr>]"
        "[\<lparr>keyword = ''type'', dataPath = ''.bar'', params = []\<rparr>]"]
  by simp

section \<open>The component registry: the claims\<close>

text \<open>
  C2. For the type \<^verbatim>\<open>object\<close> and a registry whose path mapping has a nested path mapping
  at the key, \<^verbatim>\<open>repackComponents\<close> returns the registry with \<^verbatim>\<open>path\<close> replaced by that
  entry itself, every other field kept. With \<^verbatim>\<open>path = {address: {path: {city: CompB}}}\<close>
  and the key \<^verbatim>\<open>address\<close> the new \<^verbatim>\<open>path\<close> is \<^verbatim>\<open>{path: {city: CompB}}\<close>; it is
  \<^verbatim>\<open>{city: CompB}\<close> for \<^verbatim>\<open>path = {address: {city: CompB}}\<close>.
\<close>

theorem repackComponents_nested_entry:
  "(path components = Some (PathComponents m) \<and> map_of m key = Some (PathComponents sub)
      \<longrightarrow> repackComponents components TObject key
            = components\<lparr>path := Some (PathComponents sub)\<rparr>)
   \<and> repackComponents
        \<lparr>registered = reg,
         path = Some (PathComponents
           [(''address'', PathComponents [(''path'', PathComponents [(''city'', Component compB)])])])\<rparr>
        TObject ''address''
      = \<lparr>registered = reg,
         path = Some (PathComponents [(''path'', PathComponents [(''city'', Component compB)])])\<rparr>
   \<and> repackComponents
        \<lparr>registered = reg,
         path = Some (PathComponents [(''address'', PathComponents [(''city'', Component compB)])])\<rparr>
        TObject ''address''
      = \<lparr>registered = reg, path = Some (PathComponents [(''city'', Component compB)])\<rparr>"
  by (simp add: repackComponents_def)

theorem repackComponents_nested_entry_witness:
  "repackComponents
     \<lparr>registered = [(TObject, ''ObjectField'')],
      path = Some (PathComponents
        [(''name'', Component ''CompA''),
         (''address'', PathComponents [(''city'', Component ''CompB'')])])\<rparr>
     TObject ''address''
   = \<lparr>registered = [(TObject, ''ObjectField'')],
      path = Some (PathComponents [(''city'', Component ''CompB'')])\<rparr>"
  using repackComponents_nested_entry
    [where components = "\<lparr>registered = [(TObject, ''ObjectField'')],
      path = Some (PathComponents
        [(''name'', Component ''CompA''),
         (''address'', PathComponents [(''city'', Component ''CompB'')])])\<rparr>"
      and m = "[(''name'', Component ''CompA''),
         (''address'', PathComponents [(''city'', Component ''CompB'')])]"
      and key = "''address''" and sub = "[(''city'', Component ''CompB'')]"
      and reg = "[]" and compB = "''CompB''"]
  by simp

text \<open>
  The claim as the specification has it fails on its own example: the new \<^verbatim>\<open>path\<close> is
  not \<^verbatim>\<open>{city: CompB}\<close>.
\<close>

theorem repackComponents_path_field_counterexample:
  "path (repackComponents
     \<lparr>registered = [(TObject, ''ObjectField'')],
      path = Some (PathComponents
        [(''address'', PathComponents [(''path'', PathComponents [(''city'', Component ''CompB'')])])])\<rparr>
     TObject ''address'')
   \<noteq> Some (PathComponents [(''city'', Component ''CompB'')])"
  by (simp add: repackComponents_def)

text \<open>
  C3. \<^verbatim>\<open>repackComponents\<close> returns the registry unchanged when the type is not
  \<^verbatim>\<open>object\<close> or the registry has no path mapping. For the type \<^verbatim>\<open>object\<close> and a registry
  with a path mapping, \<^verbatim>\<open>path\<close> becomes what the mapping holds at the key, whatever that
  is; where the mapping has no entry at the key, \<^verbatim>\<open>path\<close> becomes \<^verbatim>\<open>undefined\<close>.
\<close>

theorem repackComponents_unchanged:
  "(ty \<noteq> TObject \<or> path components = None \<longrightarrow> repackComponents components ty key = components)
   \<and> (ty = TObject \<and> path components = Some p
        \<longrightarrow> repackComponents components ty key = components\<lparr>path := pathEntry p key\<rparr>)
   \<and> (ty = TObject \<and> path components = Some (PathComponents m) \<and> map_of m key = None
        \<longrightarrow> repackComponents components ty key = components\<lparr>path := None\<rparr>)"
  by (auto simp: repackComponents_def)

theorem repackComponents_unchanged_witness:
  "repackComponents
     \<lparr>registered = [(TString, ''TextField'')],
      path = Some (PathComponents [(''name'', Component ''CompA'')])\<rparr> TString ''name''
   = \<lparr>registered = [(TString, ''TextField'')],
      path = Some (PathComponents [(''name'', Component ''CompA'')])\<rparr>
   \<and> repackComponents \<lparr>registered = [(TObject, ''ObjectField'')], path = None\<rparr> TObject ''name''
   = \<lparr>registered = [(TObject, ''ObjectField'')], path = None\<rparr>
   \<and> repackComponents
     \<lparr>registered = [(TObject, ''ObjectField'')],
      path = Some (PathComponents [(''name'', Component ''CompA'')])\<rparr> TObject ''other''
   = \<lparr>registered = [(TObject, ''ObjectField'')], path = None\<rparr>"
  using repackComponents_unchanged
    [where ty = TString and components = "\<lparr>registered = [(TString, ''TextField'')],
      path = Some (PathComponents [(''name'', Component ''CompA'')])\<rparr>" and key = "''name''"]
    repackComponents_unchanged
    [where ty = TObject
      and components = "\<lparr>registered = [(TObject, ''ObjectField'')], path = None\<rparr>"
      and key = "''name''"]
    repackComponents_unchanged
    [where ty = TObject and components = "\<lparr>registered = [(TObject, ''ObjectField'')],
      path = Some (PathComponents [(''name'', Component ''CompA'')])\<rparr>" and key = "''other''"
      and p = "PathComponents [(''name'', Component ''CompA'')]"
      and m = "[(''name'', Component ''CompA'')]"]
  by simp

text \<open>
  The claim as the specification has it fails where the path mapping has no entry at the
  key: the registry that comes back has lost its \<^verbatim>\<open>path\<close>.
\<close>

theorem repackComponents_missing_entry_counterexample:
  "repackComponents
     \<lparr>registered = [(TObject, ''ObjectField'')],
      path = Some (PathComponents [(''name'', Component ''CompA'')])\<rparr> TObject ''other''
   \<noteq> \<lparr>registered = [(TObject, ''ObjectField'')],
      path = Some (PathComponents [(''name'', Component ''CompA'')])\<rparr>"
  by (simp add: repackComponents_def)

text \<open>
  C8. For the type \<^verbatim>\<open>object\<close> and an override at the key, \<^verbatim>\<open>getComponent\<close> returns the
  first element of a pair and a bare component itself, and \<^verbatim>\<open>getComponentProps\<close> returns
  the second element of a pair. Without an override, and for every type that is not
  \<^verbatim>\<open>object\<close>, \<^verbatim>\<open>getComponent\<close> returns the component registered for the type.
  \<^verbatim>\<open>getComponentProps\<close> returns the empty props in every case but the pair override. The
  override is the entry of the path mapping at the key, and there is none when the
  registry has no path mapping.
\<close>

theorem getComponent_override_and_fallback:
  "(pathComponent components key = Some (WithProps c props)
      \<longrightarrow> getComponent components TObject key = Some (Component c)
          \<and> getComponentProps components TObject key = props)
   \<and> (pathComponent components key = Some (Component c)
      \<longrightarrow> getComponent components TObject key = Some (Component c))
   \<and> (ty \<noteq> TObject \<or> pathComponent components key = None
      \<longrightarrow> getComponent components ty key
            = map_option Component (map_of (registered components) ty))
   \<and> (ty \<noteq> TObject \<or> (\<forall>c props. pathComponent components key \<noteq> Some (WithProps c props))
      \<longrightarrow> getComponentProps components ty key = [])
   \<and> (path components = Some (PathComponents m)
      \<longrightarrow> pathComponent components key = map_of m key)
   \<and> (path components = None \<longrightarrow> pathComponent components key = None)"
  by (auto simp: getComponent_def getComponentProps_def pathComponent_def
      split: option.splits PathComponent.splits)

theorem getComponent_override_and_fallback_witness:
  "getComponent
     \<lparr>registered = [(TObject, ''ObjectField'')],
      path = Some (PathComponents [(''name'', WithProps ''CompA'' [(''x'', JNum 1)])])\<rparr>
     TObject ''name'' = Some (Component ''CompA'')
   \<and> getComponentProps
     \<lparr>registered = [(TObject, ''ObjectField'')],
      path = Some (PathComponents [(''name'', WithProps ''CompA'' [(''x'', JNum 1)])])\<rparr>
     TObject ''name'' = [(''x'', JNum 1)]
   \<and> getComponent
     \<lparr>registered = [(TObject, ''ObjectField'')],
      path = Some (PathComponents [(''name'', WithProps ''CompA'' [(''x'', JNum 1)])])\<rparr>
     TObject ''other'' = Some (Component ''ObjectField'')
   \<and> getComponentProps
     \<lparr>registered = [(TObject, ''ObjectField'')],
      path = Some (PathComponents [(''name'', WithProps ''CompA'' [(''x'', JNum 1)])])\<rparr>
     TObject ''other'' = []
   \<and> getComponent
     \<lparr>registered = [(TObject, ''ObjectField'')],
      path = Some (PathComponents [(''name'', Component ''CompA'')])\<rparr>
     TObject ''name'' = Some (Component ''CompA'')
   \<and> getComponent
     \<lparr>registered = [(TString, ''TextField'')], path = None\<rparr>
     TString ''name'' = Some (Component ''TextField'')"
  using getComponent_override_and_fallback
    [where components = "\<lparr>registered = [(TObject, ''ObjectField'')],
      path = Some (PathComponents [(''name'', WithProps ''CompA'' [(''x'', JNum 1)])])\<rparr>"
      and key = "''name''" and c = "''CompA''" and props = "[(''x'', JNum 1)]" and ty = TObject
      and m = "[(''name'', WithProps ''CompA'' [(''x'', JNum 1)])]"]
    getComponent_override_and_fallback
    [where components = "\<lparr>registered = [(TObject, ''ObjectField'')],
      path = Some (PathComponents [(''name'', WithProps ''CompA'' [(''x'', JNum 1)])])\<rparr>"
      and key = "''other''" and c = "''CompA''" and props = "[(''x'', JNum 1)]" and ty = TObject
      and m = "[(''name'', WithProps ''CompA'' [(''x'', JNum 1)])]"]
    getComponent_override_and_fallback
    [where components = "\<lparr>registered = [(TObject, ''ObjectField'')],
      path = Some (PathComponents [(''name'', Component ''CompA'')])\<rparr>"
      and key = "''name''" and c = "''CompA''" and props = "[]" and ty = TObject
      and m = "[(''name'', Component ''CompA'')]"]
    getComponent_override_and_fallback
    [where components = "\<lparr>registered = [(TString, ''TextField'')], path = None\<rparr>"
      and key = "''name''" and c = "''CompA''" and props = "[]" and ty = TString
      and m = "[]"]
  by simp

end
